theory Spec2Isabelle
  imports Complex_Main "HOL-Library.Word" "HOL-Library.While_Combinator"
begin

section \<open>Strings and Numbers of the host\<close>

text \<open>
  A JavaScript string is a sequence of UTF-16 code units; \<open>length\<close> counts code units.
  \<open>str\<close> writes an ASCII literal as such a sequence.
\<close>

type_synonym jsstring = "16 word list"

definition str :: "string \<Rightarrow> jsstring" where
  "str s = map of_char s"

text \<open>
  A Number is \<open>NaN\<close> or a finite value. The infinities are left out: \<open>Date.getTime\<close>
  never returns one, the sine of a finite value is finite, and the products formed below stay
  far from the overflow threshold. \<open>Set<number>\<close> compares with SameValueZero, under which
  \<open>NaN\<close> equals itself and the two zeros coincide: that is equality on this type.
\<close>

datatype number = NaN | Num real

text \<open>
  The functions of the ECMAScript host that the server calls are parameters of the model:
  \<^item> \<open>Math_sin\<close> is \<open>Math.sin\<close> on finite arguments (ECMAScript leaves its value
    implementation-approximated);
  \<^item> \<open>fl\<close> rounds the exact result of an arithmetic operation to a Number (binary64
    round-to-nearest in an engine, the identity in an idealised host);
  \<^item> \<open>Date_getTime s\<close> is \<open>new Date(s).getTime()\<close>: the time value in milliseconds, or
    \<open>NaN\<close> for a string that does not parse.
  Nothing is assumed about them.
\<close>

record host =
  Math_sin :: "real \<Rightarrow> real"
  fl :: "real \<Rightarrow> real"
  Date_getTime :: "jsstring \<Rightarrow> number"

definition num_add :: "host \<Rightarrow> number \<Rightarrow> real \<Rightarrow> number" where
  "num_add h a b = (case a of NaN \<Rightarrow> NaN | Num x \<Rightarrow> Num (fl h (x + b)))"

definition num_mul :: "host \<Rightarrow> number \<Rightarrow> real \<Rightarrow> number" where
  "num_mul h a b = (case a of NaN \<Rightarrow> NaN | Num x \<Rightarrow> Num (fl h (x * b)))"

definition Math_floor :: "number \<Rightarrow> number" where
  "Math_floor a = (case a of NaN \<Rightarrow> NaN | Num x \<Rightarrow> Num (of_int \<lfloor>x\<rfloor>))"

text \<open>
  \<open>xs[i]\<close> for a Number \<open>i\<close>: the element when \<open>i\<close> is an integer in range, and
  \<open>undefined\<close> (here \<open>None\<close>) otherwise; JavaScript does not raise.
\<close>

definition at_index :: "'a list \<Rightarrow> number \<Rightarrow> 'a option" where
  "at_index xs i = (case i of NaN \<Rightarrow> None | Num r \<Rightarrow>
     (if r = of_int \<lfloor>r\<rfloor> \<and> 0 \<le> r \<and> r < real (length xs)
      then Some (xs ! nat \<lfloor>r\<rfloor>) else None))"

section \<open>Data model\<close>

text \<open>The interface \<open>Game\<close> of \<open>src/types/Game.ts\<close>; a cover or screenshot is its url.\<close>

record game =
  game_id :: "int option"
  name :: jsstring
  cover :: "jsstring option"
  screenshots :: "jsstring list option"
  first_release_date :: "int option"

section \<open>Deterministic selection\<close>

text \<open>
  \<^verbatim>\<open>function seededRandom(seed) { const x = Math.sin(seed) * 10000; return x - Math.floor(x) }\<close>
\<close>

definition seededRandom :: "host \<Rightarrow> number \<Rightarrow> number" where
  "seededRandom h seed = (case seed of NaN \<Rightarrow> NaN | Num s \<Rightarrow>
     (let x = fl h (Math_sin h s * 10000) in Num (fl h (x - of_int \<lfloor>x\<rfloor>))))"

text \<open>
  The local variables of the loop in \<open>selectGamesForDate\<close>. The counter \<open>seedOffset\<close> is
  a natural number: counting is exact below \<open>2^53\<close>.
\<close>

record sel_state =
  selectedGames :: "game option list"
  usedIndexes :: "number set"
  seedOffset :: nat

definition sel_init :: sel_state where
  "sel_init = \<lparr>selectedGames = [], usedIndexes = {}, seedOffset = 0\<rparr>"

text \<open>
  \<^verbatim>\<open>while (selectedGames.length < count && usedIndexes.size < games.length)\<close>
\<close>

definition sel_cond :: "game list \<Rightarrow> nat \<Rightarrow> sel_state \<Rightarrow> bool" where
  "sel_cond games cnt s \<longleftrightarrow>
     length (selectedGames s) < cnt \<and> card (usedIndexes s) < length games"

text \<open>
  The body of the loop:
  \<^verbatim>\<open>
    const random = seededRandom(dateNum + seedOffset)
    const idx = Math.floor(random * games.length)
    if (!usedIndexes.has(idx)) { selectedGames.push(games[idx]); usedIndexes.add(idx) }
    seedOffset++
  \<close>
\<close>

definition sel_body :: "host \<Rightarrow> game list \<Rightarrow> number \<Rightarrow> sel_state \<Rightarrow> sel_state" where
  "sel_body h games dateNum s =
     (let random = seededRandom h (num_add h dateNum (real (seedOffset s)));
          idx = Math_floor (num_mul h random (real (length games)));
          s' = (if idx \<notin> usedIndexes s
                then s\<lparr>selectedGames := selectedGames s @ [at_index games idx],
                       usedIndexes := insert idx (usedIndexes s)\<rparr>
                else s)
      in s'\<lparr>seedOffset := seedOffset s + 1\<rparr>)"

text \<open>
  \<open>selectGamesForDate(games, date, count)\<close>. The loop need not end, so the result is an
  option: \<open>None\<close> when the call never returns.
\<close>

definition selectGamesForDate ::
    "host \<Rightarrow> game list \<Rightarrow> jsstring \<Rightarrow> nat \<Rightarrow> game option list option" where
  "selectGamesForDate h games date cnt =
     (let dateNum = Date_getTime h date
      in map_option selectedGames
           (while_option (sel_cond games cnt) (sel_body h games dateNum) sel_init))"

text \<open>The index drawn in the iteration that starts with \<open>seedOffset = k\<close>.\<close>

definition idx_at :: "host \<Rightarrow> game list \<Rightarrow> number \<Rightarrow> nat \<Rightarrow> number" where
  "idx_at h games dateNum k =
     Math_floor (num_mul h (seededRandom h (num_add h dateNum (real k))) (real (length games)))"

text \<open>The set of indices drawn in the first \<open>k\<close> iterations, and the loop state after them.\<close>

definition drawn :: "host \<Rightarrow> game list \<Rightarrow> number \<Rightarrow> nat \<Rightarrow> number set" where
  "drawn h games dateNum k = idx_at h games dateNum ` {..<k}"

definition sel_run :: "host \<Rightarrow> game list \<Rightarrow> number \<Rightarrow> nat \<Rightarrow> sel_state" where
  "sel_run h games dateNum k = (sel_body h games dateNum ^^ k) sel_init"

section \<open>Server state, upstream calls and responses\<close>

text \<open>
  The module-level variables of the server: \<open>accessToken\<close>, \<open>tokenExpiry\<close>, \<open>cachedGrid\<close>
  (its two fields), \<open>searchRateLimit\<close>, and \<open>db\<close> with the table \<open>daily_grid\<close> behind it
  (\<open>None\<close> when \<open>DATABASE_URL\<close> is not set). Times are milliseconds since the epoch.
\<close>

record rate_record =
  count :: nat
  resetTime :: int

record server =
  accessToken :: jsstring
  tokenExpiry :: int
  cachedGrid_date :: jsstring
  cachedGrid_games :: "game option list"
  searchRateLimit :: "jsstring \<rightharpoonup> rate_record"
  db :: "(jsstring \<rightharpoonup> game option list) option"

text \<open>The state of a freshly started process, with or without a database.\<close>

definition server_init :: "(jsstring \<rightharpoonup> game option list) option \<Rightarrow> server" where
  "server_init d = \<lparr>accessToken = [], tokenExpiry = 0, cachedGrid_date = [],
     cachedGrid_games = [], searchRateLimit = Map.empty, db = d\<rparr>"

text \<open>The requests a handler sends upstream (identity provider and catalog), in order.\<close>

datatype call = TokenExchange | FetchGames | SearchGames jsstring

text \<open>
  What a rejected promise carries into the \<open>catch\<close> block: an axios error (message and the
  response data, if any), another \<open>Error\<close>, or any other thrown value.
\<close>

datatype failure = AxiosError jsstring "jsstring option" | Error jsstring | Thrown

datatype payload =
    GamesPayload "game option list" jsstring
  | HitsPayload "game list"
  | ErrorPayload jsstring "jsstring option"

datatype response = Response (status: nat) (body: payload)

text \<open>The \<open>catch\<close> block shared by both handlers.\<close>

definition on_error :: "failure \<Rightarrow> response" where
  "on_error err = (case err of
       AxiosError message details \<Rightarrow> Response 500 (ErrorPayload message details)
     | Error message \<Rightarrow> Response 500 (ErrorPayload message None)
     | Thrown \<Rightarrow> Response 500 (ErrorPayload (str ''Unknown error'') None))"

section \<open>Rate limiter\<close>

text \<open>
  \<open>isRateLimited(ip)\<close>, with the value of \<open>Date.now()\<close> as an argument.
\<close>

definition isRateLimited :: "int \<Rightarrow> jsstring \<Rightarrow> server \<Rightarrow> bool \<times> server" where
  "isRateLimited now ip s =
     (case searchRateLimit s ip of
        None \<Rightarrow>
          (False, s\<lparr>searchRateLimit :=
                      (searchRateLimit s)(ip \<mapsto> \<lparr>count = 1, resetTime = now + 60000\<rparr>)\<rparr>)
      | Some record \<Rightarrow>
          if now > resetTime record
          then (False, s\<lparr>searchRateLimit :=
                           (searchRateLimit s)(ip \<mapsto> \<lparr>count = 1, resetTime = now + 60000\<rparr>)\<rparr>)
          else if count record \<ge> 30 then (True, s)
          else (False, s\<lparr>searchRateLimit :=
                           (searchRateLimit s)(ip \<mapsto> record\<lparr>count := count record + 1\<rparr>)\<rparr>))"

text \<open>The sweep run every five minutes: entries whose window has passed are deleted.\<close>

definition cleanup :: "int \<Rightarrow> server \<Rightarrow> server" where
  "cleanup now s = s\<lparr>searchRateLimit :=
     (\<lambda>ip. case searchRateLimit s ip of
              None \<Rightarrow> None
            | Some record \<Rightarrow> if now > resetTime record then None else Some record)\<rparr>"

text \<open>Successive calls for one client, at the given instants; the answers in order.\<close>

fun isRateLimited_calls :: "int list \<Rightarrow> jsstring \<Rightarrow> server \<Rightarrow> bool list \<times> server" where
  "isRateLimited_calls [] ip s = ([], s)"
| "isRateLimited_calls (now # ts) ip s =
     (let (limited, s1) = isRateLimited now ip s;
          (rest, s2) = isRateLimited_calls ts ip s1
      in (limited # rest, s2))"

section \<open>Access token\<close>

text \<open>
  What one call of \<open>getAccessToken\<close> meets: the clock at the validity check, the outcome of
  the POST to the identity provider, and the clock when the answer is stored.
\<close>

record token_response =
  access_token :: jsstring
  expires_in :: int

record token_io =
  now_check :: int
  exchange :: "failure + token_response"
  now_store :: int

text \<open>
  \<^verbatim>\<open>
  if (accessToken && Date.now() < tokenExpiry) return accessToken
  const res = await axios.post(...)
  accessToken = res.data.access_token
  tokenExpiry = Date.now() + (res.data.expires_in - 60) * 1000
  return accessToken
  \<close>
  The empty string is falsy. A failed exchange rejects and leaves both variables as they were.
\<close>

definition getAccessToken ::
    "token_io \<Rightarrow> server \<Rightarrow> (failure + jsstring) \<times> server \<times> call list" where
  "getAccessToken io s =
     (if accessToken s \<noteq> [] \<and> now_check io < tokenExpiry s
      then (Inr (accessToken s), s, [])
      else case exchange io of
             Inl err \<Rightarrow> (Inl err, s, [TokenExchange])
           | Inr res \<Rightarrow>
               (Inr (access_token res),
                s\<lparr>accessToken := access_token res,
                  tokenExpiry := now_store io + (expires_in res - 60) * 1000\<rparr>,
                [TokenExchange]))"

section \<open>The handler of \<open>GET /api/games\<close>\<close>

text \<open>
  What one request meets: the date string \<open>new Date().toISOString().slice(0, 10)\<close>, whether
  the SELECT and the INSERT succeed, the token exchange, and the answer of the catalog. The
  text of the catalog query (with the month's timestamp) plays no part below and is left out.
\<close>

record games_io =
  today :: jsstring
  db_select_ok :: bool
  games_token :: token_io
  igdb_games :: "failure + game list"
  db_insert_ok :: bool

text \<open>
  Duplicate names are removed, the first occurrence kept:
  \<^verbatim>\<open>for (const game of allGames)
    if (!seenNames.has(game.name)) { uniqueGames.push(game); seenNames.add(game.name) }\<close>
\<close>

fun dedupe :: "game list \<Rightarrow> game list \<Rightarrow> jsstring set \<Rightarrow> game list" where
  "dedupe [] uniqueGames seenNames = uniqueGames"
| "dedupe (g # allGames) uniqueGames seenNames =
     (if name g \<notin> seenNames
      then dedupe allGames (uniqueGames @ [g]) (insert (name g) seenNames)
      else dedupe allGames uniqueGames seenNames)"

text \<open>
  \<open>SELECT games FROM daily_grid WHERE date = today\<close>: the row if there is one; a rejected
  query is caught and logged, and the handler goes on as after a miss.
\<close>

definition db_lookup :: "games_io \<Rightarrow> server \<Rightarrow> game option list option" where
  "db_lookup io s = (case db s of
       None \<Rightarrow> None
     | Some rows \<Rightarrow> if db_select_ok io then rows (today io) else None)"

text \<open>
  \<open>INSERT ... ON CONFLICT (date) DO NOTHING\<close>, not awaited; a rejection is logged only.
\<close>

definition db_persist :: "games_io \<Rightarrow> game option list \<Rightarrow> server \<Rightarrow> server" where
  "db_persist io selected s = (case db s of
       None \<Rightarrow> s
     | Some rows \<Rightarrow>
         if db_insert_ok io \<and> rows (today io) = None
         then s\<lparr>db := Some (rows(today io \<mapsto> selected))\<rparr>
         else s)"

text \<open>
  The handler: the response, the new state and the upstream calls made; \<open>None\<close> when the
  selection never returns, so that no response is sent.
\<close>

definition getGames ::
    "host \<Rightarrow> games_io \<Rightarrow> server \<Rightarrow> (response \<times> server \<times> call list) option" where
  "getGames h io s =
     (if cachedGrid_date s = today io \<and> length (cachedGrid_games s) > 0
      then Some (Response 200 (GamesPayload (cachedGrid_games s) (cachedGrid_date s)), s, [])
      else case db_lookup io s of
        Some row \<Rightarrow>
          Some (Response 200 (GamesPayload row (today io)),
                s\<lparr>cachedGrid_date := today io, cachedGrid_games := row\<rparr>, [])
      | None \<Rightarrow>
          (case getAccessToken (games_token io) s of
             (Inl err, s1, calls) \<Rightarrow> Some (on_error err, s1, calls)
           | (Inr token, s1, calls) \<Rightarrow>
               (case igdb_games io of
                  Inl err \<Rightarrow> Some (on_error err, s1, calls @ [FetchGames])
                | Inr allGames \<Rightarrow>
                    (case selectGamesForDate h (dedupe allGames [] {}) (today io) 9 of
                       None \<Rightarrow> None
                     | Some selected \<Rightarrow>
                         Some (Response 200 (GamesPayload selected (today io)),
                               db_persist io selected
                                 (s1\<lparr>cachedGrid_date := today io,
                                     cachedGrid_games := selected\<rparr>),
                               calls @ [FetchGames])))))"

section \<open>The handler of \<open>GET /api/search\<close>\<close>

text \<open>
  \<open>String.prototype.trim\<close> removes the WhiteSpace and LineTerminator code units of
  ECMAScript from both ends.
\<close>

definition isWhiteSpace :: "16 word \<Rightarrow> bool" where
  "isWhiteSpace c \<longleftrightarrow>
     c \<in> {0x09, 0x0A, 0x0B, 0x0C, 0x0D, 0x20, 0xA0, 0x1680, 0x2028, 0x2029, 0x202F, 0x205F,
          0x3000, 0xFEFF} \<or> (0x2000 \<le> c \<and> c \<le> 0x200A)"

definition trim :: "jsstring \<Rightarrow> jsstring" where
  "trim s = rev (dropWhile isWhiteSpace (rev (dropWhile isWhiteSpace s)))"

text \<open>
  \<open>query.replace(/["\;]/g, '').trim()\<close>: the double quote (0x22), the backslash (0x5C) and
  the semicolon (0x3B) are deleted, then the ends are trimmed.
\<close>

definition sanitize :: "jsstring \<Rightarrow> jsstring" where
  "sanitize query = trim (filter (\<lambda>c. c \<notin> {0x22, 0x5C, 0x3B}) query)"

text \<open>The body sent to the catalog: the sanitized query between two double quotes.\<close>

definition search_query :: "jsstring \<Rightarrow> jsstring" where
  "search_query sanitizedQuery =
     str ''search '' @ [0x22] @ sanitizedQuery @ [0x22] @
     str ''; fields name, id, first_release_date, cover.url; limit 10;''"

record search_io =
  query_param :: "jsstring option"
  x_forwarded_for :: "jsstring option"
  req_ip :: "jsstring option"
  search_now :: int
  search_token :: token_io
  igdb_search :: "failure + game list"

text \<open>
  \<^verbatim>\<open>(req.headers['x-forwarded-for'] as string)?.split(',')[0].trim() ?? req.ip ?? 'unknown'\<close>
\<close>

definition client_ip :: "search_io \<Rightarrow> jsstring" where
  "client_ip io = (case x_forwarded_for io of
       Some header \<Rightarrow> trim (takeWhile (\<lambda>c. c \<noteq> 0x2C) header)
     | None \<Rightarrow> (case req_ip io of Some ip \<Rightarrow> ip | None \<Rightarrow> str ''unknown''))"

definition bad_request :: response where
  "bad_request = Response 400 (ErrorPayload (str ''Query must be at least 2 characters'') None)"

definition too_many_requests :: response where
  "too_many_requests =
     Response 429 (ErrorPayload (str ''Too many requests, please slow down.'') None)"

definition searchGames :: "search_io \<Rightarrow> server \<Rightarrow> response \<times> server \<times> call list" where
  "searchGames io s =
     (case query_param io of
        None \<Rightarrow> (bad_request, s, [])
      | Some query \<Rightarrow>
          if query = [] \<or> length (trim query) < 2 then (bad_request, s, [])
          else
            let sanitizedQuery = sanitize query in
            if length sanitizedQuery < 2 then (bad_request, s, [])
            else
              (case isRateLimited (search_now io) (client_ip io) s of
                 (True, s1) \<Rightarrow> (too_many_requests, s1, [])
               | (False, s1) \<Rightarrow>
                   (case getAccessToken (search_token io) s1 of
                      (Inl err, s2, calls) \<Rightarrow> (on_error err, s2, calls)
                    | (Inr token, s2, calls) \<Rightarrow>
                        (case igdb_search io of
                           Inl err \<Rightarrow>
                             (on_error err, s2, calls @ [SearchGames (search_query sanitizedQuery)])
                         | Inr hits \<Rightarrow>
                             (Response 200 (HitsPayload hits), s2,
                              calls @ [SearchGames (search_query sanitizedQuery)])))))"

section \<open>Example values\<close>

text \<open>
  An idealised host for the examples: exact sine, no rounding, and a \<open>Date\<close> of which only
  three facts are used: \<open>2025-06-01\<close> and \<open>1970-01-01\<close> parse to midnight UTC of those
  days, and a string that is no date parses to \<open>NaN\<close>.
\<close>

definition example_host :: host where
  "example_host = \<lparr>Math_sin = sin, fl = (\<lambda>x. x),
     Date_getTime = (\<lambda>s. if s = str ''2025-06-01'' then Num 1748736000000
                         else if s = str ''1970-01-01'' then Num 0 else NaN)\<rparr>"

definition example_game :: "int \<Rightarrow> string \<Rightarrow> game" where
  "example_game i title = \<lparr>game_id = Some i, name = str title, cover = None,
     screenshots = None, first_release_date = None\<rparr>"

definition pool1 :: "game list" where
  "pool1 = [example_game 1 ''Portal 2'']"

definition pool2 :: "game list" where
  "pool2 = [example_game 1 ''Portal 2'', example_game 2 ''Hades'']"

definition pool5 :: "game list" where
  "pool5 = [example_game 1 ''Portal 2'', example_game 2 ''Hades'', example_game 3 ''Celeste'',
            example_game 4 ''Doom'', example_game 5 ''Braid'']"

definition limited_server :: server where
  "limited_server = (server_init None)\<lparr>searchRateLimit :=
     [str ''ip1'' \<mapsto> \<lparr>count = 30, resetTime = 60000\<rparr>]\<rparr>"

definition example_exchange :: token_io where
  "example_exchange = \<lparr>now_check = 1000,
     exchange = Inr \<lparr>access_token = str ''abc123'', expires_in = 3600\<rparr>,
     now_store = 1200\<rparr>"

definition example_reuse :: token_io where
  "example_reuse = \<lparr>now_check = 3541199, exchange = Inl Thrown, now_store = 3541199\<rparr>"

definition query_short :: jsstring where
  "query_short = str '' a;'' @ [0x5C, 0x20]"

definition query_zelda :: jsstring where
  "query_zelda = str '' ze'' @ [0x22] @ str ''lda; ''"

definition search_short :: search_io where
  "search_short = \<lparr>query_param = Some query_short, x_forwarded_for = None,
     req_ip = Some (str ''10.0.0.7''), search_now = 5000, search_token = example_exchange,
     igdb_search = Inr []\<rparr>"

definition search_zelda :: search_io where
  "search_zelda = \<lparr>query_param = Some query_zelda,
     x_forwarded_for = Some (str ''203.0.113.9, 10.0.0.1''),
     req_ip = Some (str ''10.0.0.7''), search_now = 5000, search_token = example_exchange,
     igdb_search = Inr []\<rparr>"

definition games_empty :: games_io where
  "games_empty = \<lparr>today = str ''2025-06-01'', db_select_ok = True,
     games_token = example_exchange, igdb_games = Inr [], db_insert_ok = True\<rparr>"

definition games_one :: games_io where
  "games_one = \<lparr>today = str ''2025-06-01'', db_select_ok = True,
     games_token = example_exchange, igdb_games = Inr pool1, db_insert_ok = True\<rparr>"

definition games_one_again :: games_io where
  "games_one_again = \<lparr>today = str ''2025-06-01'', db_select_ok = True,
     games_token = example_reuse, igdb_games = Inl (Error (str ''unreachable'')),
     db_insert_ok = True\<rparr>"

definition games_one_after_empty :: games_io where
  "games_one_after_empty = \<lparr>today = str ''2025-06-01'', db_select_ok = True,
     games_token = example_reuse, igdb_games = Inr pool1, db_insert_ok = True\<rparr>"

definition after_empty :: server where
  "after_empty = \<lparr>accessToken = str ''abc123'', tokenExpiry = 3541200,
     cachedGrid_date = str ''2025-06-01'', cachedGrid_games = [],
     searchRateLimit = Map.empty, db = None\<rparr>"

definition after_one :: server where
  "after_one = \<lparr>accessToken = str ''abc123'', tokenExpiry = 3541200,
     cachedGrid_date = str ''2025-06-01'',
     cachedGrid_games = [Some (example_game 1 ''Portal 2'')],
     searchRateLimit = Map.empty, db = None\<rparr>"

section \<open>Binary64 rounding\<close>





section \<open>The selection loop, iteration by iteration\<close>

lemma sel_body_idx:
  "sel_body h games d s =
     (if idx_at h games d (seedOffset s) \<notin> usedIndexes s
      then s\<lparr>selectedGames := selectedGames s @ [at_index games (idx_at h games d (seedOffset s))],
             usedIndexes := insert (idx_at h games d (seedOffset s)) (usedIndexes s)\<rparr>
      else s)\<lparr>seedOffset := seedOffset s + 1\<rparr>"
  by (simp add: sel_body_def idx_at_def Let_def)

lemma sel_run_form:
  "\<exists>ids. distinct ids \<and> set ids = drawn h games d k \<and>
         sel_run h games d k =
           \<lparr>selectedGames = map (at_index games) ids, usedIndexes = set ids, seedOffset = k\<rparr>"
proof (induction k)
  case 0
  show ?case by (simp add: sel_run_def sel_init_def drawn_def)
next
  case (Suc k)
  then obtain ids where ids: "distinct ids" "set ids = drawn h games d k"
    "sel_run h games d k =
       \<lparr>selectedGames = map (at_index games) ids, usedIndexes = set ids, seedOffset = k\<rparr>"
    by blast
  have step: "sel_run h games d (Suc k) = sel_body h games d (sel_run h games d k)"
    by (simp add: sel_run_def)
  have dr: "drawn h games d (Suc k) = insert (idx_at h games d k) (drawn h games d k)"
    by (auto simp: drawn_def lessThan_Suc)
  show ?case
  proof (cases "idx_at h games d k \<in> set ids")
    case True
    with ids step dr show ?thesis
      by (intro exI[of _ ids]) (simp add: sel_body_idx insert_absorb)
  next
    case False
    with ids step dr show ?thesis
      by (intro exI[of _ "ids @ [idx_at h games d k]"]) (simp add: sel_body_idx)
  qed
qed

lemma card_drawn_0: "card (drawn h games d 0) = 0"
  by (simp add: drawn_def)

lemma card_drawn_Suc: "card (drawn h games d (Suc k)) \<le> Suc (card (drawn h games d k))"
  by (simp add: drawn_def lessThan_Suc card_insert_if)

lemma sel_cond_run:
  "sel_cond games cnt (sel_run h games d k) \<longleftrightarrow> card (drawn h games d k) < min cnt (length games)"
proof -
  obtain ids where ids: "distinct ids" "set ids = drawn h games d k"
    "sel_run h games d k =
       \<lparr>selectedGames = map (at_index games) ids, usedIndexes = set ids, seedOffset = k\<rparr>"
    using sel_run_form by blast
  then show ?thesis
    by (simp add: sel_cond_def distinct_card[symmetric])
qed

lemma least_stop_card:
  assumes "\<not> card (drawn h games d k) < m"
  shows "card (drawn h games d (LEAST k. \<not> card (drawn h games d k) < m)) = m"
proof -
  define K where "K = (LEAST k. \<not> card (drawn h games d k) < m)"
  have stop: "\<not> card (drawn h games d K) < m"
    unfolding K_def using assms by (rule LeastI)
  have before: "\<And>j. j < K \<Longrightarrow> card (drawn h games d j) < m"
    unfolding K_def using not_less_Least by blast
  show ?thesis
  proof (cases K)
    case 0
    with stop show ?thesis by (simp add: K_def[symmetric] card_drawn_0)
  next
    case (Suc j)
    then have "card (drawn h games d j) < m" using before by simp
    moreover have "card (drawn h games d K) \<le> Suc (card (drawn h games d j))"
      unfolding Suc by (rule card_drawn_Suc)
    ultimately show ?thesis using stop by (simp add: K_def[symmetric])
  qed
qed

lemma select_eq:
  "selectGamesForDate h games date cnt =
     (let d = Date_getTime h date; m = min cnt (length games) in
      if \<exists>k. \<not> card (drawn h games d k) < m
      then Some (selectedGames (sel_run h games d (LEAST k. \<not> card (drawn h games d k) < m)))
      else None)"
  by (simp add: selectGamesForDate_def while_option_def sel_cond_run[unfolded sel_run_def] sel_run_def Let_def)


lemma select_Some_form:
  assumes "selectGamesForDate h games date cnt = Some r"
  shows "\<exists>ids. distinct ids \<and> r = map (at_index games) ids \<and>
           length ids = min cnt (length games) \<and>
           set ids \<subseteq> range (idx_at h games (Date_getTime h date))"
proof -
  let ?d = "Date_getTime h date" and ?m = "min cnt (length games)"
  let ?K = "LEAST k. \<not> card (drawn h games ?d k) < ?m"
  from assms have ex: "\<exists>k. \<not> card (drawn h games ?d k) < ?m"
    and r: "r = selectedGames (sel_run h games ?d ?K)"
    by (auto simp: select_eq Let_def split: if_splits)
  from ex obtain k where "\<not> card (drawn h games ?d k) < ?m" ..
  then have card: "card (drawn h games ?d ?K) = ?m" by (rule least_stop_card)
  obtain ids where ids: "distinct ids" "set ids = drawn h games ?d ?K"
    "sel_run h games ?d ?K =
       \<lparr>selectedGames = map (at_index games) ids, usedIndexes = set ids, seedOffset = ?K\<rparr>"
    using sel_run_form by blast
  have "length ids = ?m" using ids(1,2) card by (metis distinct_card)
  moreover have "set ids \<subseteq> range (idx_at h games ?d)" using ids(2) by (auto simp: drawn_def)
  ultimately show ?thesis using ids r by auto
qed

lemma at_index_Some:
  assumes "at_index xs i = Some a"
  shows "\<exists>p. i = Num (real p) \<and> p < length xs \<and> a = xs ! p"
proof (cases i)
  case NaN
  with assms show ?thesis by (simp add: at_index_def)
next
  case (Num r)
  with assms have r: "r = of_int \<lfloor>r\<rfloor>" "0 \<le> r" "r < real (length xs)" "a = xs ! nat \<lfloor>r\<rfloor>"
    by (auto simp: at_index_def split: if_splits)
  have "0 \<le> \<lfloor>r\<rfloor>" using r(2) by simp
  then have "real (nat \<lfloor>r\<rfloor>) = of_int \<lfloor>r\<rfloor>" by simp
  with r(1) have "real (nat \<lfloor>r\<rfloor>) = r" by simp
  moreover have "nat \<lfloor>r\<rfloor> < length xs" using r(2,3) by linarith
  ultimately show ?thesis using Num r(4) by (intro exI[of _ "nat \<lfloor>r\<rfloor>"]) simp
qed

lemma sel_body_cong:
  assumes "Math_sin h' = Math_sin h" "fl h' = fl h"
  shows "sel_body h' games d = sel_body h games d"
  by (rule ext)
     (simp add: sel_body_def seededRandom_def num_add_def num_mul_def assms
           cong: number.case_cong)




lemma while_option_once:
  assumes "b s" "\<not> b (c s)"
  shows "while_option b c s = Some (c s)"
  by (subst while_option_unfold, simp add: assms(1), subst while_option_unfold, simp add: assms(2))

lemma example_date: "Date_getTime example_host (str ''2025-06-01'') = Num 1748736000000"
  by (simp add: example_host_def)

lemma example_idx_at_pool1: "idx_at example_host pool1 (Num d) k = Num 0"
  by (simp add: idx_at_def num_add_def seededRandom_def num_mul_def Math_floor_def
      example_host_def pool1_def Let_def)

lemma example_sel_body_pool1:
  "sel_body example_host pool1 (Num d) sel_init =
     \<lparr>selectedGames = [Some (example_game 1 ''Portal 2'')], usedIndexes = {Num 0}, seedOffset = 1\<rparr>"
  by (simp add: sel_body_idx example_idx_at_pool1 sel_init_def) (simp add: at_index_def pool1_def)

lemma example_select_pool1:
  "selectGamesForDate example_host pool1 (str ''2025-06-01'') 9 =
     Some [Some (example_game 1 ''Portal 2'')]"
proof -
  let ?d = "Num 1748736000000"
  have "while_option (sel_cond pool1 9) (sel_body example_host pool1 ?d) sel_init =
          Some (sel_body example_host pool1 ?d sel_init)"
    by (rule while_option_once)
       (simp_all add: example_sel_body_pool1, simp_all add: sel_cond_def sel_init_def pool1_def)
  then show ?thesis
    by (simp add: selectGamesForDate_def example_date example_sel_body_pool1)
qed

lemma sin_one_bounds: "8414.5 / 10000 \<le> sin (1::real) \<and> sin (1::real) < 8415 / 10000"
proof -
  have sum: "(\<Sum>m<9. sin_coeff m * (1::real) ^ m) = 4241 / 5040"
    by (simp add: lessThan_nat_numeral lessThan_Suc sin_coeff_def fact_numeral)
  have "\<bar>sin (1::real) - (\<Sum>m<9. sin_coeff m * 1 ^ m)\<bar> \<le> inverse (fact 9) * \<bar>1\<bar> ^ 9"
    by (rule Maclaurin_sin_bound)
  then have "\<bar>sin (1::real) - 4241 / 5040\<bar> \<le> 1 / 362880"
    unfolding sum by (simp add: fact_numeral inverse_eq_divide)
  then have "sin (1::real) - 4241 / 5040 \<le> 1 / 362880"
    and "- (sin (1::real) - 4241 / 5040) \<le> 1 / 362880"
    by (simp_all only: abs_le_iff)
  then show ?thesis by simp
qed

lemma example_epoch: "Date_getTime example_host (str ''1970-01-01'') = Num 0"
  by (simp add: example_host_def str_def)

lemma example_hash_one:
  "\<lfloor>(sin (1::real) * 10000 - of_int \<lfloor>sin (1::real) * 10000\<rfloor>) * 2\<rfloor> = 1"
proof -
  from sin_one_bounds have b: "8414.5 \<le> sin (1::real) * 10000" "sin (1::real) * 10000 < 8415"
    by simp_all
  then have "\<lfloor>sin (1::real) * 10000\<rfloor> = 8414" by (subst floor_eq_iff) simp
  with b show ?thesis by (subst floor_eq_iff) simp
qed

lemma example_idx_at_pool2:
  "idx_at example_host pool2 (Num 0) 0 = Num 0" "idx_at example_host pool2 (Num 0) (Suc 0) = Num 1"
  using example_hash_one
  by (simp_all add: idx_at_def num_add_def seededRandom_def num_mul_def Math_floor_def
      example_host_def pool2_def Let_def)

lemma while_option_twice:
  assumes "b s" "b (c s)" "\<not> b (c (c s))"
  shows "while_option b c s = Some (c (c s))"
  by (subst while_option_unfold, simp add: assms(1), subst while_option_unfold,
      simp add: assms(2), subst while_option_unfold, simp add: assms(3))

lemma example_sel_body_pool2:
  "sel_body example_host pool2 (Num 0) sel_init =
     \<lparr>selectedGames = [Some (example_game 1 ''Portal 2'')], usedIndexes = {Num 0}, seedOffset = Suc 0\<rparr>"
  "sel_body example_host pool2 (Num 0)
     \<lparr>selectedGames = [Some (example_game 1 ''Portal 2'')], usedIndexes = {Num 0}, seedOffset = Suc 0\<rparr> =
     \<lparr>selectedGames = [Some (example_game 1 ''Portal 2''), Some (example_game 2 ''Hades'')],
      usedIndexes = {Num 0, Num 1}, seedOffset = 2\<rparr>"
  by (simp_all add: sel_body_idx example_idx_at_pool2 sel_init_def)
     (simp_all add: at_index_def pool2_def insert_commute)

lemma example_select_pool2:
  "selectGamesForDate example_host pool2 (str ''1970-01-01'') 9 =
     Some [Some (example_game 1 ''Portal 2''), Some (example_game 2 ''Hades'')]"
proof -
  let ?c = "sel_body example_host pool2 (Num 0)"
  have "while_option (sel_cond pool2 9) ?c sel_init = Some (?c (?c sel_init))"
    by (rule while_option_twice)
       (simp_all add: example_sel_body_pool2, simp_all add: sel_cond_def sel_init_def pool2_def)
  then show ?thesis
    by (simp add: selectGamesForDate_def example_epoch example_sel_body_pool2)
qed

section \<open>Claims about the selector\<close>

text \<open>
  C1. The selector takes no server state: its embedding has the pool, the date and the count
  as its only arguments besides the host functions it calls. Two invocations with the same
  pool, date and count, in one process or in two whose hosts agree on \<open>Math.sin\<close>, on
  rounding and on the parse of this date, give the same outcome: the same sequence, or no
  return in both.
\<close>

theorem selectGamesForDate_deterministic:
  assumes "Math_sin h' = Math_sin h" and "fl h' = fl h"
    and "Date_getTime h' date = Date_getTime h date"
  shows "selectGamesForDate h' games date cnt = selectGamesForDate h games date cnt"
  by (simp add: selectGamesForDate_def sel_body_cong[OF assms(1,2)] assms(3))

text \<open>C1, at a concrete input: two hosts that differ in how they parse other strings.\<close>

theorem selectGamesForDate_deterministic_witness:
  "Math_sin (example_host\<lparr>Date_getTime := (\<lambda>s. Num 1748736000000)\<rparr>) = Math_sin example_host \<and>
   fl (example_host\<lparr>Date_getTime := (\<lambda>s. Num 1748736000000)\<rparr>) = fl example_host \<and>
   Date_getTime (example_host\<lparr>Date_getTime := (\<lambda>s. Num 1748736000000)\<rparr>) (str ''2025-06-01'') =
     Date_getTime example_host (str ''2025-06-01'') \<and>
   selectGamesForDate (example_host\<lparr>Date_getTime := (\<lambda>s. Num 1748736000000)\<rparr>) pool5
       (str ''2025-06-01'') 9 =
     selectGamesForDate example_host pool5 (str ''2025-06-01'') 9"
  using selectGamesForDate_deterministic
    [of "example_host\<lparr>Date_getTime := (\<lambda>s. Num 1748736000000)\<rparr>" example_host
        "str ''2025-06-01''" pool5 9]
  by (simp add: example_date)




text \<open>
  C3. When no two games of the pool share a name, no two entries of the returned list do:
  the entries are the pool's elements at pairwise distinct indices (an index is never
  picked twice).
\<close>

theorem selectGamesForDate_no_duplicates:
  assumes "distinct (map name games)" and "selectGamesForDate h games date cnt = Some r"
  shows "(\<exists>ids. distinct ids \<and> r = map (at_index games) ids) \<and>
         (\<forall>i j a b. i < j \<and> j < length r \<and> r ! i = Some a \<and> r ! j = Some b \<longrightarrow> name a \<noteq> name b)"
proof -
  obtain ids where ids: "distinct ids" "r = map (at_index games) ids"
    using select_Some_form[OF assms(2)] by blast
  have "name a \<noteq> name b"
    if ij: "i < j" "j < length r" and a: "r ! i = Some a" and b: "r ! j = Some b" for i j a b
  proof
    assume eq: "name a = name b"
    from ij ids have len: "i < length ids" "j < length ids" by simp_all
    from a ids(2) len obtain p where p: "ids ! i = Num (real p)" "p < length games" "a = games ! p"
      using at_index_Some by fastforce
    from b ids(2) len obtain q where q: "ids ! j = Num (real q)" "q < length games" "b = games ! q"
      using at_index_Some by fastforce
    from eq p q have "map name games ! p = map name games ! q" by simp
    with p(2) q(2) have "p = q" using nth_eq_iff_index_eq[OF assms(1), of p q] by simp
    with p(1) q(1) have "ids ! i = ids ! j" by simp
    with ids(1) len ij(1) show False by (simp add: nth_eq_iff_index_eq)
  qed
  then have "\<forall>i j a b. i < j \<and> j < length r \<and> r ! i = Some a \<and> r ! j = Some b \<longrightarrow> name a \<noteq> name b"
    by (intro allI impI) (elim conjE)
  moreover have "\<exists>ids. distinct ids \<and> r = map (at_index games) ids"
    using ids by (intro exI[of _ ids]) simp
  ultimately show ?thesis by (rule conjI[rotated])
qed

text \<open>C3, at a concrete input: the two games of the pool come back, under two names.\<close>

theorem selectGamesForDate_no_duplicates_witness:
  "distinct (map name pool2) \<and>
   selectGamesForDate example_host pool2 (str ''1970-01-01'') 9 =
     Some [Some (example_game 1 ''Portal 2''), Some (example_game 2 ''Hades'')] \<and>
   name (example_game 1 ''Portal 2'') \<noteq> name (example_game 2 ''Hades'')"
proof -
  let ?r = "[Some (example_game 1 ''Portal 2''), Some (example_game 2 ''Hades'')]"
  have d: "distinct (map name pool2)" by (simp add: pool2_def example_game_def str_def)
  from selectGamesForDate_no_duplicates[OF d example_select_pool2]
  have "\<forall>i j a b. i < j \<and> j < length ?r \<and> ?r ! i = Some a \<and> ?r ! j = Some b \<longrightarrow>
      name a \<noteq> name b"
    by (rule conjunct2)
  then have "(0::nat) < 1 \<and> 1 < length ?r \<and> ?r ! 0 = Some (example_game 1 ''Portal 2'') \<and>
      ?r ! 1 = Some (example_game 2 ''Hades'') \<longrightarrow>
      name (example_game 1 ''Portal 2'') \<noteq> name (example_game 2 ''Hades'')"
    by blast
  then have "name (example_game 1 ''Portal 2'') \<noteq> name (example_game 2 ''Hades'')"
    by simp
  with d example_select_pool2 show ?thesis by simp
qed

section \<open>Claims about the rate limiter\<close>

lemma isRateLimited_fresh:
  assumes "searchRateLimit s ip = None \<or> (\<exists>r. searchRateLimit s ip = Some r \<and> now > resetTime r)"
  shows "isRateLimited now ip s =
    (False, s\<lparr>searchRateLimit := (searchRateLimit s)(ip \<mapsto> \<lparr>count = 1, resetTime = now + 60000\<rparr>)\<rparr>)"
  using assms by (auto simp: isRateLimited_def)

lemma isRateLimited_within:
  assumes "searchRateLimit s ip = Some r" "now \<le> resetTime r" "count r < 30"
  shows "isRateLimited now ip s =
    (False, s\<lparr>searchRateLimit := (searchRateLimit s)(ip \<mapsto> r\<lparr>count := count r + 1\<rparr>)\<rparr>)"
  using assms by (simp add: isRateLimited_def)

lemma isRateLimited_full:
  assumes "searchRateLimit s ip = Some r" "now \<le> resetTime r" "30 \<le> count r"
  shows "isRateLimited now ip s = (True, s)"
  using assms by (simp add: isRateLimited_def)

lemma isRateLimited_calls_within:
  assumes "searchRateLimit s ip = Some r" "\<forall>t\<in>set ts. t \<le> resetTime r"
    and "count r + length ts \<le> 30"
  shows "fst (isRateLimited_calls ts ip s) = replicate (length ts) False \<and>
         searchRateLimit (snd (isRateLimited_calls ts ip s)) ip =
           Some (r\<lparr>count := count r + length ts\<rparr>)"
  using assms
proof (induction ts arbitrary: s r)
  case Nil
  then show ?case by simp
next
  case (Cons t ts)
  let ?s1 = "s\<lparr>searchRateLimit := (searchRateLimit s)(ip \<mapsto> r\<lparr>count := count r + 1\<rparr>)\<rparr>"
  have step: "isRateLimited t ip s = (False, ?s1)"
    using Cons.prems by (intro isRateLimited_within) simp_all
  have "fst (isRateLimited_calls ts ip ?s1) = replicate (length ts) False \<and>
        searchRateLimit (snd (isRateLimited_calls ts ip ?s1)) ip =
          Some (r\<lparr>count := count r + 1\<rparr>\<lparr>count := count (r\<lparr>count := count r + 1\<rparr>) + length ts\<rparr>)"
    using Cons.prems by (intro Cons.IH) simp_all
  then show ?case
    by (simp add: step split_beta)
qed

text \<open>The sweep leaves a record alone while its window lasts.\<close>

lemma cleanup_live:
  assumes "searchRateLimit s ip = Some r" "now \<le> resetTime r"
  shows "searchRateLimit (cleanup now s) ip = Some r"
  using assms by (simp add: cleanup_def)

text \<open>
  C6. A client whose window starts with the call at \<open>t0\<close> (no record, or the old window
  has passed): that call and 29 more within the window, none later than the reset instant
  \<open>t0 + 60000\<close>, are all answered \<open>false\<close>; a 31st call within the window is answered
  \<open>true\<close>; the next call after the reset instant is answered \<open>false\<close> and leaves a fresh
  record with \<open>count = 1\<close>.
\<close>

theorem isRateLimited_window:
  assumes "searchRateLimit s ip = None \<or> (\<exists>r. searchRateLimit s ip = Some r \<and> t0 > resetTime r)"
    and "length ts = 29" and "\<forall>t\<in>set ts. t \<le> t0 + 60000"
    and "t31 \<le> t0 + 60000" and "t0 + 60000 < t'"
  shows "let (answers, s30) = isRateLimited_calls (t0 # ts) ip s;
             (a31, s31) = isRateLimited t31 ip s30;
             (a', s') = isRateLimited t' ip s31
         in answers = replicate 30 False \<and> a31 \<and> \<not> a' \<and>
            searchRateLimit s30 ip = Some \<lparr>count = 30, resetTime = t0 + 60000\<rparr> \<and>
            searchRateLimit s' ip = Some \<lparr>count = 1, resetTime = t' + 60000\<rparr>"
proof -
  let ?r1 = "\<lparr>count = Suc 0, resetTime = t0 + 60000\<rparr>"
  let ?s1 = "s\<lparr>searchRateLimit := (searchRateLimit s)(ip \<mapsto> ?r1)\<rparr>"
  let ?s30 = "snd (isRateLimited_calls ts ip ?s1)"
  have first: "isRateLimited t0 ip s = (False, ?s1)"
    using isRateLimited_fresh[OF assms(1)] by simp
  have rest: "fst (isRateLimited_calls ts ip ?s1) = replicate (length ts) False \<and>
        searchRateLimit ?s30 ip = Some (?r1\<lparr>count := count ?r1 + length ts\<rparr>)"
    using assms(2,3) by (intro isRateLimited_calls_within) simp_all
  then have rec30: "searchRateLimit ?s30 ip = Some \<lparr>count = 30, resetTime = t0 + 60000\<rparr>"
    using assms(2) by simp
  have "(30::nat) = Suc 29" by simp
  then have thirty: "replicate 30 False = False # replicate 29 False"
    by (simp only: replicate_Suc)
  have calls: "isRateLimited_calls (t0 # ts) ip s = (replicate 30 False, ?s30)"
    using rest assms(2) by (simp add: first split_beta prod_eq_iff thirty)
  have full: "isRateLimited t31 ip ?s30 = (True, ?s30)"
    by (rule isRateLimited_full[OF rec30]) (simp_all add: assms(4))
  have after: "isRateLimited t' ip ?s30 =
      (False, ?s30\<lparr>searchRateLimit := (searchRateLimit ?s30)(ip \<mapsto> \<lparr>count = 1, resetTime = t' + 60000\<rparr>)\<rparr>)"
    using rec30 assms(5) by (intro isRateLimited_fresh) simp
  show ?thesis
    by (simp only: calls full after Let_def split_conv) (simp add: rec30)
qed

text \<open>C6, at a concrete input: one call per second from a first call at instant 0.\<close>

theorem isRateLimited_window_witness:
  "(let (answers, s30) = isRateLimited_calls (0 # map (\<lambda>i. 1000 * int i) [1..<30]) (str ''ip1'') (server_init None);
        (a31, s31) = isRateLimited 60000 (str ''ip1'') s30;
        (a', s') = isRateLimited 60001 (str ''ip1'') s31
    in answers = replicate 30 False \<and> a31 \<and> \<not> a' \<and>
       searchRateLimit s30 (str ''ip1'') = Some \<lparr>count = 30, resetTime = 0 + 60000\<rparr> \<and>
       searchRateLimit s' (str ''ip1'') = Some \<lparr>count = 1, resetTime = 60001 + 60000\<rparr>)"
proof -
  have h1: "searchRateLimit (server_init None) (str ''ip1'') = None \<or>
     (\<exists>r. searchRateLimit (server_init None) (str ''ip1'') = Some r \<and> 0 > resetTime r)"
    by (simp add: server_init_def)
  have h2: "length (map (\<lambda>i. 1000 * int i) [1..<30]) = 29" by simp
  have h3: "\<forall>t\<in>set (map (\<lambda>i. 1000 * int i) [1..<30]). t \<le> 0 + 60000" by auto
  show ?thesis
    by (rule isRateLimited_window[OF h1 h2 h3, of 60000 60001]) simp_all
qed

text \<open>
  C7. A call that answers \<open>true\<close> leaves the whole state as it was, the client's record
  with its count and reset instant included; a call that answers \<open>false\<close> changes the
  client's record.
\<close>

theorem isRateLimited_limited_frame:
  assumes "isRateLimited now ip s = (limited, s')"
  shows "(limited \<longrightarrow> s' = s) \<and>
         (\<not> limited \<longrightarrow> searchRateLimit s' ip \<noteq> searchRateLimit s ip)"
proof (cases "searchRateLimit s ip")
  case None
  with assms show ?thesis by (auto simp: isRateLimited_def)
next
  case (Some r)
  with assms show ?thesis
    by (cases r) (auto simp: isRateLimited_def split: if_splits)
qed

text \<open>C7, at a concrete input: a record that has reached 30, inside its window.\<close>

theorem isRateLimited_limited_frame_witness:
  "fst (isRateLimited 30000 (str ''ip1'') limited_server) \<and>
   snd (isRateLimited 30000 (str ''ip1'') limited_server) = limited_server"
proof -
  have run: "isRateLimited 30000 (str ''ip1'') limited_server = (True, limited_server)"
    by (simp add: isRateLimited_def limited_server_def)
  from isRateLimited_limited_frame[OF run] run show ?thesis by simp
qed

section \<open>Claims about the access token\<close>

text \<open>
  C8. A first call that finds no usable token exchanges credentials once and stores the token
  with the expiry \<open>Date.now() + (expires_in - 60) * 1000\<close>; a second call made strictly before
  that expiry returns the stored token, changes nothing and sends nothing. The two calls
  together make exactly one exchange. The token returned by the exchange is a non-empty
  string (the empty string is what \<open>accessToken\<close> holds before any exchange).
\<close>

theorem getAccessToken_reuse:
  assumes "accessToken s = [] \<or> \<not> now_check io1 < tokenExpiry s"
    and "exchange io1 = Inr res" and "access_token res \<noteq> []"
    and "now_check io2 < now_store io1 + (expires_in res - 60) * 1000"
  shows "let (r1, s1, calls1) = getAccessToken io1 s;
             (r2, s2, calls2) = getAccessToken io2 s1
         in r1 = Inr (access_token res) \<and> accessToken s1 = access_token res \<and>
            tokenExpiry s1 = now_store io1 + (expires_in res - 60) * 1000 \<and>
            r2 = Inr (access_token res) \<and> s2 = s1 \<and> calls2 = [] \<and>
            calls1 @ calls2 = [TokenExchange]"
proof -
  let ?s1 = "s\<lparr>accessToken := access_token res,
               tokenExpiry := now_store io1 + (expires_in res - 60) * 1000\<rparr>"
  have first: "getAccessToken io1 s = (Inr (access_token res), ?s1, [TokenExchange])"
    using assms(1,2) by (auto simp: getAccessToken_def)
  have second: "getAccessToken io2 ?s1 = (Inr (access_token res), ?s1, [])"
    using assms(3,4) by (simp add: getAccessToken_def)
  show ?thesis
    by (simp only: first second Let_def split_conv) simp
qed

text \<open>C8, at a concrete input: a token valid for an hour, asked for again just before expiry.\<close>

theorem getAccessToken_reuse_witness:
  "(let (r1, s1, calls1) = getAccessToken example_exchange (server_init None);
        (r2, s2, calls2) = getAccessToken example_reuse s1
    in r1 = Inr (str ''abc123'') \<and> accessToken s1 = str ''abc123'' \<and>
       tokenExpiry s1 = 1200 + (3600 - 60) * 1000 \<and>
       r2 = Inr (str ''abc123'') \<and> s2 = s1 \<and> calls2 = [] \<and>
       calls1 @ calls2 = [TokenExchange])"
proof -
  have h1: "accessToken (server_init None) = [] \<or>
            \<not> now_check example_exchange < tokenExpiry (server_init None)"
    by (simp add: server_init_def)
  have h2: "exchange example_exchange = Inr \<lparr>access_token = str ''abc123'', expires_in = 3600\<rparr>"
    by (simp add: example_exchange_def)
  have h3: "access_token \<lparr>access_token = str ''abc123'', expires_in = 3600\<rparr> \<noteq> []"
    by (simp add: str_def)
  have h4: "now_check example_reuse <
      now_store example_exchange +
      (expires_in \<lparr>access_token = str ''abc123'', expires_in = 3600\<rparr> - 60) * 1000"
    by (simp add: example_reuse_def example_exchange_def)
  from getAccessToken_reuse[OF h1 h2 h3 h4] show ?thesis
    by (simp add: example_exchange_def)
qed

section \<open>Claims about the search handler\<close>

lemma set_dropWhile_subset: "set (dropWhile P xs) \<subseteq> set xs"
  by (auto dest: set_dropWhileD)

lemma dropWhile_rev_nonempty: "dropWhile P (rev xs) \<noteq> [] \<Longrightarrow> xs \<noteq> []"
  by auto

lemma set_trim: "set (trim s) \<subseteq> set s"
proof -
  have "set (trim s) = set (dropWhile isWhiteSpace (rev (dropWhile isWhiteSpace s)))"
    by (simp add: trim_def)
  also have "\<dots> \<subseteq> set (rev (dropWhile isWhiteSpace s))"
    by (rule set_dropWhile_subset)
  also have "\<dots> = set (dropWhile isWhiteSpace s)"
    by simp
  also have "\<dots> \<subseteq> set s"
    by (rule set_dropWhile_subset)
  finally show ?thesis .
qed

lemma trim_last:
  assumes "trim s \<noteq> []"
  shows "\<not> isWhiteSpace (last (trim s))"
proof -
  let ?zs = "dropWhile isWhiteSpace (rev (dropWhile isWhiteSpace s))"
  from assms have ne: "?zs \<noteq> []" by (simp add: trim_def)
  then have "last (trim s) = hd ?zs" by (simp add: trim_def last_rev)
  moreover from ne have "\<not> isWhiteSpace (hd ?zs)" by (rule hd_dropWhile)
  ultimately show ?thesis by simp
qed

lemma trim_hd:
  assumes "trim s \<noteq> []"
  shows "\<not> isWhiteSpace (hd (trim s))"
proof -
  let ?ys = "dropWhile isWhiteSpace s"
  let ?zs = "dropWhile isWhiteSpace (rev ?ys)"
  from assms have ne: "?zs \<noteq> []" by (simp add: trim_def)
  then have ys: "?ys \<noteq> []" by (rule dropWhile_rev_nonempty)
  have "rev ?ys = takeWhile isWhiteSpace (rev ?ys) @ ?zs" by simp
  then have "last (rev ?ys) = last ?zs" using ne by (metis last_appendR)
  then have "last ?zs = hd ?ys" using ys by (simp add: last_rev)
  moreover have "hd (trim s) = last ?zs" using ne by (simp add: trim_def hd_rev)
  moreover from ys have "\<not> isWhiteSpace (hd ?ys)" by (rule hd_dropWhile)
  ultimately show ?thesis by simp
qed

lemma sanitize_stripped:
  "0x22 \<notin> set (sanitize q) \<and> 0x5C \<notin> set (sanitize q) \<and> 0x3B \<notin> set (sanitize q)"
proof -
  have "set (sanitize q) \<subseteq> set (filter (\<lambda>c. c \<notin> {0x22, 0x5C, 0x3B}) q)"
    unfolding sanitize_def by (rule set_trim)
  then show ?thesis by auto
qed

lemma sanitize_trimmed:
  assumes "2 \<le> length (sanitize q)"
  shows "\<not> isWhiteSpace (hd (sanitize q)) \<and> \<not> isWhiteSpace (last (sanitize q))"
proof -
  from assms have "trim (filter (\<lambda>c. c \<notin> {0x22, 0x5C, 0x3B}) q) \<noteq> []"
    by (auto simp: sanitize_def)
  then show ?thesis unfolding sanitize_def by (simp add: trim_hd trim_last)
qed

lemma searchGames_rejects:
  assumes "query_param io = None \<or>
           (\<exists>q. query_param io = Some q \<and> (length (trim q) < 2 \<or> length (sanitize q) < 2))"
  shows "searchGames io s = (bad_request, s, [])"
  using assms by (auto simp: searchGames_def Let_def)

lemma searchGames_calls:
  assumes "SearchGames sent \<in> set (snd (snd (searchGames io s)))"
  shows "\<exists>q. query_param io = Some q \<and> sent = search_query (sanitize q) \<and>
             2 \<le> length (sanitize q)"
proof (cases "query_param io")
  case None
  with assms show ?thesis by (simp add: searchGames_def)
next
  case (Some q)
  show ?thesis
  proof (cases "q = [] \<or> length (trim q) < 2 \<or> length (sanitize q) < 2")
    case True
    with Some have "query_param io = None \<or>
        (\<exists>q. query_param io = Some q \<and> (length (trim q) < 2 \<or> length (sanitize q) < 2))"
      by (auto simp: trim_def)
    then have "searchGames io s = (bad_request, s, [])" by (rule searchGames_rejects)
    with assms show ?thesis by simp
  next
    case False
    obtain limited s1 where rl: "isRateLimited (search_now io) (client_ip io) s = (limited, s1)"
      by (cases "isRateLimited (search_now io) (client_ip io) s") auto
    obtain r s2 calls where tok: "getAccessToken (search_token io) s1 = (r, s2, calls)"
      by (cases "getAccessToken (search_token io) s1") auto
    have calls: "SearchGames sent \<notin> set calls"
      using tok by (auto simp: getAccessToken_def split: if_splits sum.splits)
    from assms Some False rl tok calls have "sent = search_query (sanitize q)"
      by (auto simp: searchGames_def Let_def split: if_splits sum.splits bool.splits)
    with Some False show ?thesis by auto
  qed
qed

text \<open>
  C9. A request whose query is missing, or shorter than two code units after trimming, or
  shorter than two after the double quotes, backslashes and semicolons are deleted and the
  ends trimmed, is answered with status 400, with no upstream call and no change of state.
  Every catalog query the handler sends embeds the sanitized query: the query with those
  three characters deleted and then trimmed, at least two code units long, with none of the
  three characters in it and no white space at either end.
\<close>

theorem searchGames_sanitized:
  "((query_param io = None \<or>
      (\<exists>q. query_param io = Some q \<and> (length (trim q) < 2 \<or> length (sanitize q) < 2)))
     \<longrightarrow> searchGames io s = (bad_request, s, []) \<and> status bad_request = 400) \<and>
   (\<forall>sent. SearchGames sent \<in> set (snd (snd (searchGames io s))) \<longrightarrow>
      (\<exists>q. query_param io = Some q \<and> sent = search_query (sanitize q) \<and>
           2 \<le> length (sanitize q) \<and>
           sanitize q = trim (filter (\<lambda>c. c \<notin> {0x22, 0x5C, 0x3B}) q) \<and>
           0x22 \<notin> set (sanitize q) \<and> 0x5C \<notin> set (sanitize q) \<and> 0x3B \<notin> set (sanitize q) \<and>
           \<not> isWhiteSpace (hd (sanitize q)) \<and> \<not> isWhiteSpace (last (sanitize q))))"
proof (intro conjI impI allI)
  assume "query_param io = None \<or>
      (\<exists>q. query_param io = Some q \<and> (length (trim q) < 2 \<or> length (sanitize q) < 2))"
  then show "searchGames io s = (bad_request, s, [])" by (rule searchGames_rejects)
next
  show "status bad_request = 400" by (simp add: bad_request_def)
next
  fix sent
  assume "SearchGames sent \<in> set (snd (snd (searchGames io s)))"
  then obtain q where q: "query_param io = Some q" "sent = search_query (sanitize q)"
    "2 \<le> length (sanitize q)"
    using searchGames_calls by blast
  moreover have "sanitize q = trim (filter (\<lambda>c. c \<notin> {0x22, 0x5C, 0x3B}) q)"
    by (simp add: sanitize_def)
  ultimately show "\<exists>q. query_param io = Some q \<and> sent = search_query (sanitize q) \<and>
           2 \<le> length (sanitize q) \<and>
           sanitize q = trim (filter (\<lambda>c. c \<notin> {0x22, 0x5C, 0x3B}) q) \<and>
           0x22 \<notin> set (sanitize q) \<and> 0x5C \<notin> set (sanitize q) \<and> 0x3B \<notin> set (sanitize q) \<and>
           \<not> isWhiteSpace (hd (sanitize q)) \<and> \<not> isWhiteSpace (last (sanitize q))"
    using sanitize_stripped[of q] sanitize_trimmed[of q] by (intro exI[of _ q]) simp
qed

lemma example_sanitize_short: "sanitize query_short = str ''a''"
  by (simp add: sanitize_def trim_def isWhiteSpace_def str_def query_short_def)

lemma example_sanitize_zelda: "sanitize query_zelda = str ''zelda''"
  by (simp add: sanitize_def trim_def isWhiteSpace_def str_def query_zelda_def)

lemma example_trim_zelda: "length (trim query_zelda) = 7"
  by (simp add: trim_def isWhiteSpace_def str_def query_zelda_def)

lemma example_zelda_nonempty: "query_zelda \<noteq> []"
  by (simp add: query_zelda_def)

lemma example_length_zelda: "length (str ''zelda'') = 5"
  by (simp add: str_def)

lemma example_search_zelda:
  "snd (snd (searchGames search_zelda (server_init None))) =
     [TokenExchange, SearchGames (search_query (str ''zelda''))]"
  by (simp add: searchGames_def search_zelda_def example_sanitize_zelda example_trim_zelda
        example_zelda_nonempty example_length_zelda Let_def)
     (simp add: isRateLimited_def getAccessToken_def server_init_def example_exchange_def)

text \<open>
  C9, at concrete inputs: a query that shrinks to one character is rejected, and the query
  \<^verbatim>\<open> ze"lda; \<close> goes upstream as \<open>zelda\<close>.
\<close>

theorem searchGames_sanitized_witness:
  "searchGames search_short (server_init None) = (bad_request, server_init None, []) \<and>
   status bad_request = 400 \<and>
   (\<exists>q. query_param search_zelda = Some q \<and>
        search_query (str ''zelda'') = search_query (sanitize q) \<and>
        2 \<le> length (sanitize q) \<and>
        sanitize q = trim (filter (\<lambda>c. c \<notin> {0x22, 0x5C, 0x3B}) q) \<and>
        0x22 \<notin> set (sanitize q) \<and> 0x5C \<notin> set (sanitize q) \<and> 0x3B \<notin> set (sanitize q) \<and>
        \<not> isWhiteSpace (hd (sanitize q)) \<and> \<not> isWhiteSpace (last (sanitize q)))"
proof -
  have "length (sanitize query_short) < 2"
    by (simp add: example_sanitize_short) (simp add: str_def)
  then have short: "query_param search_short = None \<or>
      (\<exists>q. query_param search_short = Some q \<and>
           (length (trim q) < 2 \<or> length (sanitize q) < 2))"
    by (simp add: search_short_def)
  have sent: "SearchGames (search_query (str ''zelda'')) \<in>
      set (snd (snd (searchGames search_zelda (server_init None))))"
    by (simp add: example_search_zelda)
  from searchGames_sanitized[of search_short "server_init None"] short
  have "searchGames search_short (server_init None) = (bad_request, server_init None, []) \<and>
        status bad_request = 400"
    by blast
  moreover from searchGames_sanitized[of search_zelda "server_init None"] sent
  have "\<exists>q. query_param search_zelda = Some q \<and>
        search_query (str ''zelda'') = search_query (sanitize q) \<and>
        2 \<le> length (sanitize q) \<and>
        sanitize q = trim (filter (\<lambda>c. c \<notin> {0x22, 0x5C, 0x3B}) q) \<and>
        0x22 \<notin> set (sanitize q) \<and> 0x5C \<notin> set (sanitize q) \<and> 0x3B \<notin> set (sanitize q) \<and>
        \<not> isWhiteSpace (hd (sanitize q)) \<and> \<not> isWhiteSpace (last (sanitize q))"
    by blast
  ultimately show ?thesis by blast
qed

section \<open>The handler of the daily grid\<close>

lemma dedupe_invariant:
  assumes "distinct (map name uniqueGames)" "seenNames = name ` set uniqueGames"
  shows "distinct (map name (dedupe allGames uniqueGames seenNames)) \<and>
         name ` set (dedupe allGames uniqueGames seenNames) =
           name ` (set uniqueGames \<union> set allGames)"
  using assms
proof (induction allGames arbitrary: uniqueGames seenNames)
  case Nil
  then show ?case by simp
next
  case (Cons g allGames)
  show ?case
  proof (cases "name g \<in> seenNames")
    case True
    with Cons.prems Cons.IH[of uniqueGames seenNames] show ?thesis by auto
  next
    case False
    with Cons.prems have "distinct (map name (uniqueGames @ [g]))"
      and "insert (name g) seenNames = name ` set (uniqueGames @ [g])"
      by auto
    from Cons.IH[OF this] False show ?thesis by auto
  qed
qed

lemma dedupe_distinct: "distinct (map name (dedupe allGames [] {}))"
  using dedupe_invariant[of "[]" "{}" allGames] by simp

lemma dedupe_length: "length (dedupe allGames [] {}) = card (name ` set allGames)"
proof -
  have "length (dedupe allGames [] {}) = length (map name (dedupe allGames [] {}))" by simp
  also have "\<dots> = card (set (map name (dedupe allGames [] {})))"
    using dedupe_distinct by (rule distinct_card[symmetric])
  also have "\<dots> = card (name ` set allGames)"
    using dedupe_invariant[of "[]" "{}" allGames] by simp
  finally show ?thesis .
qed

lemma select_length:
  assumes "selectGamesForDate h games date cnt = Some r"
  shows "length r = min cnt (length games)"
  using select_Some_form[OF assms] by auto

lemma getAccessToken_frame:
  assumes "getAccessToken io s = (r, s1, calls)"
  shows "cachedGrid_date s1 = cachedGrid_date s \<and> cachedGrid_games s1 = cachedGrid_games s \<and>
         db s1 = db s \<and> searchRateLimit s1 = searchRateLimit s \<and> set calls \<subseteq> {TokenExchange}"
  using assms by (auto simp: getAccessToken_def split: if_splits sum.splits)

lemma db_persist_frame:
  "cachedGrid_date (db_persist io g s) = cachedGrid_date s \<and>
   cachedGrid_games (db_persist io g s) = cachedGrid_games s"
  by (simp add: db_persist_def split: option.splits)

lemma status_on_error: "status (on_error err) = 500"
  by (cases err) (simp_all add: on_error_def)

lemma getGames_memory:
  assumes "cachedGrid_date s = today io" "cachedGrid_games s \<noteq> []"
  shows "getGames h io s =
    Some (Response 200 (GamesPayload (cachedGrid_games s) (today io)), s, [])"
  using assms by (simp add: getGames_def)

lemma getGames_db:
  assumes "\<not> (cachedGrid_date s = today io \<and> cachedGrid_games s \<noteq> [])"
    and "db_lookup io s = Some row"
  shows "getGames h io s =
    Some (Response 200 (GamesPayload row (today io)),
          s\<lparr>cachedGrid_date := today io, cachedGrid_games := row\<rparr>, [])"
  using assms by (auto simp: getGames_def)

text \<open>The five ways in which the handler answers.\<close>

lemma getGames_cases:
  assumes "getGames h io s = Some (resp, s', calls)"
  shows
    "(cachedGrid_date s = today io \<and> cachedGrid_games s \<noteq> [] \<and>
        resp = Response 200 (GamesPayload (cachedGrid_games s) (today io)) \<and> s' = s \<and> calls = []) \<or>
     (\<exists>row. db_lookup io s = Some row \<and>
        resp = Response 200 (GamesPayload row (today io)) \<and>
        s' = s\<lparr>cachedGrid_date := today io, cachedGrid_games := row\<rparr> \<and> calls = []) \<or>
     (\<exists>err. resp = on_error err \<and> cachedGrid_date s' = cachedGrid_date s \<and>
        cachedGrid_games s' = cachedGrid_games s \<and> length (filter (\<lambda>c. c = FetchGames) calls) \<le> 1) \<or>
     (\<exists>allGames g. igdb_games io = Inr allGames \<and>
        selectGamesForDate h (dedupe allGames [] {}) (today io) 9 = Some g \<and>
        resp = Response 200 (GamesPayload g (today io)) \<and>
        cachedGrid_date s' = today io \<and> cachedGrid_games s' = g \<and>
        length (filter (\<lambda>c. c = FetchGames) calls) = 1)"
proof (cases "cachedGrid_date s = today io \<and> cachedGrid_games s \<noteq> []")
  case True
  with assms show ?thesis by (auto simp: getGames_def)
next
  case miss: False
  show ?thesis
  proof (cases "db_lookup io s")
    case (Some row)
    with assms miss show ?thesis by (auto simp: getGames_def)
  next
    case None
    obtain r s1 c where tok: "getAccessToken (games_token io) s = (r, s1, c)"
      by (cases "getAccessToken (games_token io) s") auto
    from getAccessToken_frame[OF tok]
    have frame: "cachedGrid_date s1 = cachedGrid_date s" "cachedGrid_games s1 = cachedGrid_games s"
      and c: "set c \<subseteq> {TokenExchange}" by simp_all
    from c have nofetch: "filter (\<lambda>c. c = FetchGames) c = []"
      by (auto simp: filter_empty_conv)
    show ?thesis
    proof (cases r)
      case (Inl err)
      with assms miss None tok frame nofetch show ?thesis
        by (auto simp: getGames_def)
    next
      case (Inr token)
      show ?thesis
      proof (cases "igdb_games io")
        case (Inl err)
        with assms miss None tok Inr frame nofetch show ?thesis
          by (auto simp: getGames_def)
      next
        case fetched: (Inr allGames)
        show ?thesis
        proof (cases "selectGamesForDate h (dedupe allGames [] {}) (today io) 9")
          case None
          with assms miss \<open>db_lookup io s = None\<close> tok Inr fetched show ?thesis
            by (auto simp: getGames_def)
        next
          case (Some g)
          with assms miss \<open>db_lookup io s = None\<close> tok Inr fetched nofetch show ?thesis
            by (auto simp: getGames_def db_persist_frame)
        qed
      qed
    qed
  qed
qed

lemma example_dedupe_pool1: "dedupe pool1 [] {} = pool1"
  by (simp add: pool1_def)

lemma example_token_nonempty: "str ''abc123'' \<noteq> []"
  by (simp add: str_def)

lemma example_select_empty: "selectGamesForDate h [] date cnt = Some []"
  by (subst selectGamesForDate_def, subst while_option_unfold)
     (simp add: sel_cond_def sel_init_def)

lemma example_getGames_empty:
  "getGames example_host games_empty (server_init None) =
     Some (Response 200 (GamesPayload [] (str ''2025-06-01'')), after_empty,
           [TokenExchange, FetchGames])"
  by (simp add: getGames_def games_empty_def server_init_def db_lookup_def db_persist_def
      getAccessToken_def example_exchange_def example_select_empty after_empty_def)

lemma example_getGames_one:
  "getGames example_host games_one (server_init None) =
     Some (Response 200 (GamesPayload [Some (example_game 1 ''Portal 2'')] (str ''2025-06-01'')),
           after_one, [TokenExchange, FetchGames])"
  by (simp add: getGames_def games_one_def server_init_def db_lookup_def db_persist_def
      getAccessToken_def example_exchange_def example_dedupe_pool1 example_select_pool1
      after_one_def)

lemma example_getGames_one_after_empty:
  "getGames example_host games_one_after_empty after_empty =
     Some (Response 200 (GamesPayload [Some (example_game 1 ''Portal 2'')] (str ''2025-06-01'')),
           after_one, [FetchGames])"
  by (simp add: getGames_def games_one_after_empty_def after_empty_def db_lookup_def
      db_persist_def getAccessToken_def example_reuse_def example_dedupe_pool1
      example_select_pool1 example_token_nonempty after_one_def)

section \<open>Claims about the handler of the daily grid\<close>

text \<open>
  C4, as stated, fails: when the catalog answers with no game, the empty grid is stored in
  the slot, but the test \<open>cachedGrid.games.length > 0\<close> makes the next request of the same
  date miss it. Without a database the second request fetches again, and here it answers
  with another grid.
\<close>

theorem getGames_cache_idempotent_counterexample:
  "getGames example_host games_empty (server_init None) =
     Some (Response 200 (GamesPayload [] (str ''2025-06-01'')), after_empty,
           [TokenExchange, FetchGames]) \<and>
   getGames example_host games_one_after_empty after_empty =
     Some (Response 200 (GamesPayload [Some (example_game 1 ''Portal 2'')] (str ''2025-06-01'')),
           after_one, [FetchGames])"
  using example_getGames_empty example_getGames_one_after_empty by (rule conjI)

text \<open>
  C4, amended. When a request is answered with a grid that is not empty, the next request of
  the same date is answered with the identical grid and grid id from the memory slot, with
  no upstream call and no change of state; the first request made at most one catalog
  fetch. The read path: a slot holding a non-empty grid of today's date is returned as it
  is; otherwise a row of the durable store for today is returned and written to the slot.
\<close>

theorem getGames_cache_idempotent:
  "(getGames h io1 s = Some (Response 200 (GamesPayload g gridId), s1, calls1) \<and> g \<noteq> [] \<and>
      today io2 = today io1
    \<longrightarrow> getGames h io2 s1 = Some (Response 200 (GamesPayload g gridId), s1, []) \<and>
        length (filter (\<lambda>c. c = FetchGames) calls1) \<le> 1) \<and>
   (cachedGrid_date s = today io1 \<and> cachedGrid_games s \<noteq> []
    \<longrightarrow> getGames h io1 s =
        Some (Response 200 (GamesPayload (cachedGrid_games s) (today io1)), s, [])) \<and>
   (\<not> (cachedGrid_date s = today io1 \<and> cachedGrid_games s \<noteq> []) \<and> db_lookup io1 s = Some row
    \<longrightarrow> getGames h io1 s =
        Some (Response 200 (GamesPayload row (today io1)),
              s\<lparr>cachedGrid_date := today io1, cachedGrid_games := row\<rparr>, []))"
proof (intro conjI impI)
  assume a: "getGames h io1 s = Some (Response 200 (GamesPayload g gridId), s1, calls1) \<and>
      g \<noteq> [] \<and> today io2 = today io1"
  then have run: "getGames h io1 s = Some (Response 200 (GamesPayload g gridId), s1, calls1)"
    and g: "g \<noteq> []" and same: "today io2 = today io1" by simp_all
  have ok: "Response 200 (GamesPayload g gridId) \<noteq> on_error err" for err
    by (cases err) (simp_all add: on_error_def)
  from getGames_cases[OF run] ok
  have slot: "cachedGrid_date s1 = today io1 \<and> cachedGrid_games s1 = g \<and> gridId = today io1"
    and fetches: "length (filter (\<lambda>c. c = FetchGames) calls1) \<le> 1"
    by auto
  from slot g same show "getGames h io2 s1 = Some (Response 200 (GamesPayload g gridId), s1, [])"
    using getGames_memory[of s1 io2 h] by simp
  from fetches show "length (filter (\<lambda>c. c = FetchGames) calls1) \<le> 1" .
next
  assume "cachedGrid_date s = today io1 \<and> cachedGrid_games s \<noteq> []"
  then show "getGames h io1 s =
      Some (Response 200 (GamesPayload (cachedGrid_games s) (today io1)), s, [])"
    by (simp add: getGames_memory)
next
  assume "\<not> (cachedGrid_date s = today io1 \<and> cachedGrid_games s \<noteq> []) \<and>
      db_lookup io1 s = Some row"
  then show "getGames h io1 s =
      Some (Response 200 (GamesPayload row (today io1)),
            s\<lparr>cachedGrid_date := today io1, cachedGrid_games := row\<rparr>, [])"
    using getGames_db[of s io1 row h] by blast
qed

text \<open>C4, amended, at a concrete input: a grid of one game, asked for twice.\<close>

theorem getGames_cache_idempotent_witness:
  "getGames example_host games_one_again after_one =
     Some (Response 200 (GamesPayload [Some (example_game 1 ''Portal 2'')] (str ''2025-06-01'')),
           after_one, []) \<and>
   length (filter (\<lambda>c. c = FetchGames) [TokenExchange, FetchGames]) \<le> 1"
proof -
  have "today games_one_again = today games_one"
    by (simp add: games_one_again_def games_one_def)
  with getGames_cache_idempotent
    [of example_host games_one "server_init None" "[Some (example_game 1 ''Portal 2'')]"
        "str ''2025-06-01''" after_one "[TokenExchange, FetchGames]" games_one_again]
    example_getGames_one
  show ?thesis by blast
qed

text \<open>
  C5, as stated, fails: a catalog answer with a single game yields the status 200 and a grid
  of one game.
\<close>

theorem getGames_whole_grid_counterexample:
  "map_option fst (getGames example_host games_one (server_init None)) =
     Some (Response 200 (GamesPayload [Some (example_game 1 ''Portal 2'')] (str ''2025-06-01'')))"
  by (simp add: example_getGames_one)

text \<open>
  C5, amended. Every response of the handler is either a 500 error response or a 200
  response that carries, whole, the grid of the memory slot, the stored row, or the fresh
  selection; a fresh selection has nine games when the catalog answered with at least nine
  distinct names, and one game per distinct name otherwise.
\<close>

theorem getGames_whole_grid:
  assumes "getGames h io s = Some (resp, s', calls)"
  shows "(status resp = 500 \<and> (\<exists>err. resp = on_error err)) \<or>
         (status resp = 200 \<and>
          (\<exists>g. resp = Response 200 (GamesPayload g (today io)) \<and>
             ((cachedGrid_date s = today io \<and> g = cachedGrid_games s \<and> g \<noteq> []) \<or>
              db_lookup io s = Some g \<or>
              (\<exists>allGames. igdb_games io = Inr allGames \<and>
                 selectGamesForDate h (dedupe allGames [] {}) (today io) 9 = Some g \<and>
                 length g = min 9 (card (name ` set allGames))))))"
proof -
  have len: "length g = min 9 (card (name ` set allGames))"
    if "selectGamesForDate h (dedupe allGames [] {}) (today io) 9 = Some g" for g allGames
    using select_length[OF that] by (simp add: dedupe_length)
  from getGames_cases[OF assms] show ?thesis
    by (elim disjE exE conjE) (auto simp: status_on_error len)
qed

text \<open>C5, amended, at a concrete input: the fresh selection from a catalog answer of one game.\<close>

theorem getGames_whole_grid_witness:
  "(status (Response 200 (GamesPayload [Some (example_game 1 ''Portal 2'')] (str ''2025-06-01''))) = 500 \<and>
      (\<exists>err. Response 200 (GamesPayload [Some (example_game 1 ''Portal 2'')] (str ''2025-06-01'')) =
         on_error err)) \<or>
   (status (Response 200 (GamesPayload [Some (example_game 1 ''Portal 2'')] (str ''2025-06-01''))) = 200 \<and>
    (\<exists>g. Response 200 (GamesPayload [Some (example_game 1 ''Portal 2'')] (str ''2025-06-01'')) =
           Response 200 (GamesPayload g (today games_one)) \<and>
       ((cachedGrid_date (server_init None) = today games_one \<and>
           g = cachedGrid_games (server_init None) \<and> g \<noteq> []) \<or>
        db_lookup games_one (server_init None) = Some g \<or>
        (\<exists>allGames. igdb_games games_one = Inr allGames \<and>
           selectGamesForDate example_host (dedupe allGames [] {}) (today games_one) 9 = Some g \<and>
           length g = min 9 (card (name ` set allGames))))))"
  using getGames_whole_grid[OF example_getGames_one] .

section \<open>Claims about the range of the hash\<close>






























end
